theory Spec2Isabelle
  imports Main
begin

section \<open>The request executor of nightfall.go\<close>

text \<open>
  The model follows \<^verbatim>\<open>src/nightfall.go\<close>.  The HTTP transport, the caller's context and
  the JSON library are not part of the repository: the transport and the context are an
  oracle that says, for every attempt, what \<^verbatim>\<open>httpClient.Do\<close> returned and what
  \<^verbatim>\<open>ctx.Err()\<close> was at that moment; the two JSON entry points are function parameters.
\<close>

subsection \<open>Data\<close>

text \<open>The \<^verbatim>\<open>Error\<close> struct; its zero value is \<open>zeroError\<close>.\<close>

record Error =
  Code :: int
  Message :: string
  Description :: string
  AdditionalData :: "(string \<times> string) list"

definition zeroError :: Error where
  "zeroError = \<lparr>Code = 0, Message = [], Description = [], AdditionalData = []\<rparr>"

text \<open>\<^verbatim>\<open>context.Canceled\<close> and \<^verbatim>\<open>context.DeadlineExceeded\<close>, the two values of \<^verbatim>\<open>ctx.Err()\<close>.\<close>

datatype ctx_error = Canceled | DeadlineExceeded

text \<open>
  Every error value the package hands around.  \<open>ErrRetryable429\<close> is the package's
  unexported sentinel \<^verbatim>\<open>errRetryable429\<close>; no transport, context, decoder or reader error
  is or wraps it, so \<^verbatim>\<open>errors.Is(err, errRetryable429)\<close> is equality with this constructor.
\<close>

datatype error =
    ErrRetryable429
  | APIError Error
  | ContextError ctx_error
  | TransportError string
  | DecodeError string
  | RequestError string
  | ReadError string

text \<open>A response body: the bytes \<^verbatim>\<open>ioutil.ReadAll\<close> yields, or the error it fails with.\<close>

datatype body = BodyBytes string | BodyReadError string

record response =
  StatusCode :: int
  Body :: body

text \<open>What one call of \<^verbatim>\<open>c.httpClient.Do(req)\<close> returns.\<close>

datatype transport_result = Resp response | TransportFailure string

text \<open>
  One attempt as the executor observes it: the transport's result and the value of
  \<^verbatim>\<open>ctx.Err()\<close> when the call came back (\<open>None\<close> while the context is not done).
\<close>

record attempt_obs =
  outcome :: transport_result
  ctx_err :: "ctx_error option"

text \<open>What \<^verbatim>\<open>json.NewDecoder(resp.Body).Decode(retResp)\<close> does to the target.\<close>

datatype 'a decode_outcome = Decoded 'a | DecodeEOF | DecodeFailed string

text \<open>The effects of one execution, in order.  A sleep carries its duration in nanoseconds.\<close>

datatype event = TransportCall int | Sleep nat

definition second :: nat where
  "second = 1000000000"

definition DefaultFileUploadConcurrency :: int where
  "DefaultFileUploadConcurrency = 1"

definition DefaultRetryCount :: int where
  "DefaultRetryCount = 5"

subsection \<open>checkResponse\<close>

text \<open>
  \<open>unm b e\<close> stands for \<^verbatim>\<open>json.Unmarshal(b, e)\<close>: it returns whether the call failed and
  the target struct as the call left it.
\<close>

definition checkResponse :: "(string \<Rightarrow> Error \<Rightarrow> bool \<times> Error) \<Rightarrow> response \<Rightarrow> Error option" where
  "checkResponse unm r =
     (if 200 \<le> StatusCode r \<and> StatusCode r \<le> 299 then None
      else (case Body r of
              BodyReadError m \<Rightarrow> Some (zeroError\<lparr>Code := StatusCode r\<rparr>)
            | BodyBytes b \<Rightarrow>
                if length b = 0 then Some (zeroError\<lparr>Code := StatusCode r\<rparr>)
                else (case unm b zeroError of
                        (True, e) \<Rightarrow> Some (e\<lparr>Code := StatusCode r\<rparr>)
                      | (False, e) \<Rightarrow> Some e)))"

subsection \<open>do\<close>

text \<open>
  The closure that \<^verbatim>\<open>do\<close> runs once per attempt.  \<open>retResp\<close> is \<open>None\<close> for a nil
  \<^verbatim>\<open>retResp\<close> and otherwise holds the struct the pointer refers to; the result is the
  closure's error (\<open>Inl\<close>) or the struct after the call (\<open>Inr\<close>).
\<close>

definition do_attempt ::
  "(string \<Rightarrow> Error \<Rightarrow> bool \<times> Error) \<Rightarrow> (body \<Rightarrow> 'a decode_outcome) \<Rightarrow> int \<Rightarrow>
   attempt_obs \<Rightarrow> 'a option \<Rightarrow> int \<Rightarrow> error + 'a option" where
  "do_attempt unm dec retryCount obs retResp attempt =
     (case outcome obs of
        TransportFailure err \<Rightarrow>
          (case ctx_err obs of
             Some ce \<Rightarrow> Inl (ContextError ce)
           | None \<Rightarrow> Inl (TransportError err))
      | Resp resp \<Rightarrow>
          (case checkResponse unm resp of
             Some e \<Rightarrow>
               if StatusCode resp = 429 then
                 (if attempt \<ge> retryCount + 1 then Inl (APIError e) else Inl ErrRetryable429)
               else Inl (APIError e)
           | None \<Rightarrow>
               (case retResp of
                  None \<Rightarrow> Inr None
                | Some r0 \<Rightarrow>
                    (case dec (Body resp) of
                       Decoded v \<Rightarrow> Inr (Some v)
                     | DecodeEOF \<Rightarrow> Inr (Some r0)
                     | DecodeFailed m \<Rightarrow> Inl (DecodeError m)))))"

text \<open>
  The loop of \<^verbatim>\<open>do\<close>, from the attempt it is about to make.  \<open>world n\<close> is what attempt
  \<open>n\<close> observes.  The result pairs the return value with the calls and sleeps performed.
\<close>

function do_loop ::
  "(string \<Rightarrow> Error \<Rightarrow> bool \<times> Error) \<Rightarrow> (body \<Rightarrow> 'a decode_outcome) \<Rightarrow> int \<Rightarrow>
   (int \<Rightarrow> attempt_obs) \<Rightarrow> 'a option \<Rightarrow> int \<Rightarrow> (error + 'a option) \<times> event list" where
  "do_loop unm dec retryCount world retResp attempt =
     (if attempt \<le> retryCount + 1 then
        (case do_attempt unm dec retryCount (world attempt) retResp attempt of
           Inr r \<Rightarrow> (Inr r, [TransportCall attempt])
         | Inl ErrRetryable429 \<Rightarrow>
             (case do_loop unm dec retryCount world retResp (attempt + 1) of
                (res, evs) \<Rightarrow> (res, TransportCall attempt # Sleep second # evs))
         | Inl e \<Rightarrow> (Inl e, [TransportCall attempt]))
      else (Inr retResp, []))"
  by pat_completeness auto
termination
  by (relation "measure (\<lambda>(unm, dec, retryCount, world, retResp, attempt). nat (retryCount + 2 - attempt))") auto

definition do_request ::
  "(string \<Rightarrow> Error \<Rightarrow> bool \<times> Error) \<Rightarrow> (body \<Rightarrow> 'a decode_outcome) \<Rightarrow> int \<Rightarrow>
   (int \<Rightarrow> attempt_obs) \<Rightarrow> 'a option \<Rightarrow> (error + 'a option) \<times> event list" where
  "do_request unm dec retryCount world retResp = do_loop unm dec retryCount world retResp 1"

declare do_loop.simps [simp del]

subsection \<open>Reading an execution\<close>

text \<open>
  Predicates on what an attempt observed, the number of transport calls in a trace, and
  the trace of the retries from attempt \<open>k\<close> up to (not including) attempt \<open>m\<close>.
\<close>

definition is429 :: "attempt_obs \<Rightarrow> bool" where
  "is429 obs = (case outcome obs of Resp r \<Rightarrow> StatusCode r = 429 | TransportFailure m \<Rightarrow> False)"

fun is_call :: "event \<Rightarrow> bool" where
  "is_call (TransportCall n) = True"
| "is_call (Sleep d) = False"

definition calls :: "event list \<Rightarrow> nat" where
  "calls evs = length (filter is_call evs)"

definition retries :: "int \<Rightarrow> int \<Rightarrow> event list" where
  "retries k m = concat (map (\<lambda>j. [TransportCall j, Sleep second]) [k..m - 1])"

definition is2xx :: "attempt_obs \<Rightarrow> bool" where
  "is2xx obs = (case outcome obs of Resp r \<Rightarrow> 200 \<le> StatusCode r \<and> StatusCode r \<le> 299 | TransportFailure m \<Rightarrow> False)"

subsection \<open>Concrete oracles\<close>

text \<open>The handlers of \<^verbatim>\<open>TestDo\<close> (\<^verbatim>\<open>src/nightfall_test.go\<close>) as attempt oracles.\<close>

definition status_only :: "int \<Rightarrow> attempt_obs" where
  "status_only c = \<lparr>outcome = Resp \<lparr>StatusCode = c, Body = BodyBytes []\<rparr>, ctx_err = None\<rparr>"

definition handler_retry_2_times :: "int \<Rightarrow> attempt_obs" where
  "handler_retry_2_times callCount = (if callCount = 3 then status_only 200 else status_only 429)"

definition handler_always_429 :: "int \<Rightarrow> attempt_obs" where
  "handler_always_429 callCount = status_only 429"

definition handler_500 :: "int \<Rightarrow> attempt_obs" where
  "handler_500 callCount = status_only 500"

text \<open>A transport that fails every call, under a context in state \<open>c\<close>.\<close>

definition transport_down :: "ctx_error option \<Rightarrow> int \<Rightarrow> attempt_obs" where
  "transport_down c n = \<lparr>outcome = TransportFailure ''connection refused'', ctx_err = c\<rparr>"

text \<open>
  \<open>set_ctx c world\<close> is \<open>world\<close> with the context's state replaced by \<open>c n\<close> at every
  attempt \<open>n\<close> that came back with a response.
\<close>

definition set_ctx :: "(int \<Rightarrow> ctx_error option) \<Rightarrow> (int \<Rightarrow> attempt_obs) \<Rightarrow> int \<Rightarrow> attempt_obs" where
  "set_ctx c world n =
     (case outcome (world n) of Resp r \<Rightarrow> (world n)\<lparr>ctx_err := c n\<rparr> | TransportFailure m \<Rightarrow> world n)"

text \<open>
  The context is cancelled while the first attempt is answered with 429; the second call then
  fails in the transport.
\<close>

definition cancelled_during_429 :: "int \<Rightarrow> attempt_obs" where
  "cancelled_during_429 n =
     (if n = 1 then \<lparr>outcome = Resp \<lparr>StatusCode = 429, Body = BodyBytes []\<rparr>, ctx_err = Some Canceled\<rparr>
      else \<lparr>outcome = TransportFailure ''context canceled'', ctx_err = Some Canceled\<rparr>)"

section \<open>Properties\<close>

lemma checkResponse_None_iff:
  "checkResponse unm r = None \<longleftrightarrow> 200 \<le> StatusCode r \<and> StatusCode r \<le> 299"
  by (auto simp: checkResponse_def split: body.splits prod.splits bool.splits)

lemma do_loop_429_more:
  assumes "is429 (world k)" and "k < retryCount + 1"
  shows "do_loop unm dec retryCount world retResp k =
         (fst (do_loop unm dec retryCount world retResp (k + 1)),
          TransportCall k # Sleep second # snd (do_loop unm dec retryCount world retResp (k + 1)))"
proof -
  from assms(1) obtain r where r: "outcome (world k) = Resp r" "StatusCode r = 429"
    by (auto simp: is429_def split: transport_result.splits)
  then obtain e where e: "checkResponse unm r = Some e"
    using checkResponse_None_iff [of unm r] by (cases "checkResponse unm r") auto
  have "do_attempt unm dec retryCount (world k) retResp k = Inl ErrRetryable429"
    using r e assms(2) by (simp add: do_attempt_def)
  then show ?thesis
    using assms(2) by (subst do_loop.simps) (simp split: prod.splits)
qed

lemma do_loop_429_last:
  assumes "outcome (world k) = Resp r" and "StatusCode r = 429" and "k = retryCount + 1"
  shows "\<exists>e. checkResponse unm r = Some e \<and>
           do_loop unm dec retryCount world retResp k = (Inl (APIError e), [TransportCall k])"
proof -
  obtain e where e: "checkResponse unm r = Some e"
    using checkResponse_None_iff [of unm r] assms(2) by (cases "checkResponse unm r") auto
  have "do_attempt unm dec retryCount (world k) retResp k = Inl (APIError e)"
    using assms e by (simp add: do_attempt_def)
  then show ?thesis
    using assms(3) e by (subst do_loop.simps) simp
qed

lemma do_loop_terminal:
  assumes "outcome (world k) = Resp r" and "\<not> (200 \<le> StatusCode r \<and> StatusCode r \<le> 299)"
    and "StatusCode r \<noteq> 429" and "k \<le> retryCount + 1"
  shows "\<exists>e. checkResponse unm r = Some e \<and>
           do_loop unm dec retryCount world retResp k = (Inl (APIError e), [TransportCall k])"
proof -
  obtain e where e: "checkResponse unm r = Some e"
    using checkResponse_None_iff [of unm r] assms(2) by (cases "checkResponse unm r") auto
  have "do_attempt unm dec retryCount (world k) retResp k = Inl (APIError e)"
    using assms e by (simp add: do_attempt_def)
  then show ?thesis
    using assms(4) e by (subst do_loop.simps) simp
qed

lemma do_loop_transport_failure:
  assumes "outcome (world k) = TransportFailure m" and "k \<le> retryCount + 1"
  shows "do_loop unm dec retryCount world retResp k =
           (Inl (case ctx_err (world k) of Some ce \<Rightarrow> ContextError ce | None \<Rightarrow> TransportError m),
            [TransportCall k])"
proof -
  have "do_attempt unm dec retryCount (world k) retResp k =
        Inl (case ctx_err (world k) of Some ce \<Rightarrow> ContextError ce | None \<Rightarrow> TransportError m)"
    using assms by (simp add: do_attempt_def split: option.splits)
  then show ?thesis
    using assms(2) by (subst do_loop.simps) (simp split: option.splits)
qed

lemma do_loop_success:
  assumes "outcome (world k) = Resp r" and "200 \<le> StatusCode r" and "StatusCode r \<le> 299"
    and "k \<le> retryCount + 1"
  shows "do_loop unm dec retryCount world retResp k =
           ((case retResp of
               None \<Rightarrow> Inr None
             | Some r0 \<Rightarrow> (case dec (Body r) of
                             Decoded v \<Rightarrow> Inr (Some v)
                           | DecodeEOF \<Rightarrow> Inr (Some r0)
                           | DecodeFailed m \<Rightarrow> Inl (DecodeError m))),
            [TransportCall k])"
proof -
  have c: "checkResponse unm r = None"
    using assms by (simp add: checkResponse_None_iff)
  show ?thesis
    using assms c
    by (subst do_loop.simps) (simp add: do_attempt_def split: option.splits decode_outcome.splits)
qed

lemma do_loop_exhausted:
  "\<not> k \<le> retryCount + 1 \<Longrightarrow> do_loop unm dec retryCount world retResp k = (Inr retResp, [])"
  by (subst do_loop.simps) simp

lemma retries_step: "k < m \<Longrightarrow> retries k m = TransportCall k # Sleep second # retries (k + 1) m"
  by (simp add: retries_def upto_rec1 [of k "m - 1"])

lemma retries_empty [simp]: "retries k k = []"
  by (simp add: retries_def)

lemma do_loop_prefix:
  assumes "\<forall>j. k \<le> j \<and> j < m \<longrightarrow> is429 (world j)" and "k \<le> m" and "m \<le> retryCount + 1"
  shows "do_loop unm dec retryCount world retResp k =
         (fst (do_loop unm dec retryCount world retResp m),
          retries k m @ snd (do_loop unm dec retryCount world retResp m))"
  using assms
proof (induction "nat (m - k)" arbitrary: k)
  case 0
  then have "k = m" by simp
  then show ?case by simp
next
  case (Suc n)
  then have km: "k < m" by linarith
  have s: "do_loop unm dec retryCount world retResp k =
         (fst (do_loop unm dec retryCount world retResp (k + 1)),
          TransportCall k # Sleep second # snd (do_loop unm dec retryCount world retResp (k + 1)))"
    using Suc.prems km by (intro do_loop_429_more) auto
  have "n = nat (m - (k + 1))" using Suc.hyps(2) by linarith
  from Suc.hyps(1) [OF this] Suc.prems km
  have "do_loop unm dec retryCount world retResp (k + 1) =
         (fst (do_loop unm dec retryCount world retResp m),
          retries (k + 1) m @ snd (do_loop unm dec retryCount world retResp m))"
    by auto
  with s show ?case by (simp add: retries_step [OF km])
qed

lemma calls_retries: "k \<le> m \<Longrightarrow> calls (retries k m) = nat (m - k)"
proof (induction "nat (m - k)" arbitrary: k)
  case 0
  then show ?case by simp (simp add: calls_def)
next
  case (Suc n)
  then have km: "k < m" by linarith
  have "n = nat (m - (k + 1))" using Suc.hyps(2) by linarith
  from Suc.hyps(1) [OF this] km have "calls (retries (k + 1) m) = nat (m - (k + 1))" by simp
  then show ?case using km by (simp add: retries_step [OF km] calls_def)
qed

lemma calls_bound:
  "calls (snd (do_loop unm dec retryCount world retResp k)) \<le> nat (retryCount + 2 - k)"
proof (induction unm dec retryCount world retResp k rule: do_loop.induct)
  case (1 unm dec retryCount world retResp attempt)
  show ?case
  proof (cases "attempt \<le> retryCount + 1")
    case False
    then show ?thesis by (simp add: do_loop_exhausted calls_def)
  next
    case True
    show ?thesis
    proof (cases "do_attempt unm dec retryCount (world attempt) retResp attempt")
      case (Inr r)
      then show ?thesis using True by (subst do_loop.simps) (simp add: calls_def)
    next
      case (Inl e)
      show ?thesis
      proof (cases "e = ErrRetryable429")
        case False
        then show ?thesis using True Inl
          by (subst do_loop.simps) (cases e; simp add: calls_def)
      next
        case True2: True
        from "1.IH" [OF True Inl True2]
        have "calls (snd (do_loop unm dec retryCount world retResp (attempt + 1))) \<le> nat (retryCount + 2 - (attempt + 1))" .
        then show ?thesis using True Inl True2
          by (subst do_loop.simps) (auto simp: calls_def split: prod.splits)
      qed
    qed
  qed
qed

lemma do_attempt_retryable_iff:
  "do_attempt unm dec retryCount obs retResp attempt = Inl ErrRetryable429 \<longleftrightarrow>
     is429 obs \<and> attempt < retryCount + 1"
  by (auto simp: do_attempt_def is429_def checkResponse_None_iff
      split: transport_result.splits option.splits decode_outcome.splits)

lemma do_loop_single:
  assumes "attempt \<le> retryCount + 1"
    and "do_attempt unm dec retryCount (world attempt) retResp attempt \<noteq> Inl ErrRetryable429"
  shows "snd (do_loop unm dec retryCount world retResp attempt) = [TransportCall attempt]"
proof (cases "do_attempt unm dec retryCount (world attempt) retResp attempt")
  case (Inr r)
  then show ?thesis using assms(1) by (subst do_loop.simps) simp
next
  case (Inl e)
  then show ?thesis using assms by (subst do_loop.simps) (cases e; simp)
qed

lemma trace_shape:
  "snd (do_loop unm dec retryCount world retResp a) = pre @ TransportCall k # post \<Longrightarrow>
     a \<le> k \<and> k \<le> retryCount + 1 \<and> pre = retries a k \<and>
     (\<forall>j. a \<le> j \<and> j < k \<longrightarrow> is429 (world j)) \<and>
     fst (do_loop unm dec retryCount world retResp a) = fst (do_loop unm dec retryCount world retResp k) \<and>
     snd (do_loop unm dec retryCount world retResp k) = TransportCall k # post"
proof (induction unm dec retryCount world retResp a arbitrary: pre rule: do_loop.induct)
  case (1 unm dec retryCount world retResp attempt)
  show ?case
  proof (cases "attempt \<le> retryCount + 1")
    case False
    with "1.prems" show ?thesis by (simp add: do_loop_exhausted)
  next
    case le: True
    show ?thesis
    proof (cases "do_attempt unm dec retryCount (world attempt) retResp attempt = Inl ErrRetryable429")
      case False
      note sg = do_loop_single [where world = world and attempt = attempt and unm = unm
          and dec = dec and retResp = retResp, OF le False]
      from sg "1.prems"
      have "pre @ TransportCall k # post = [TransportCall attempt]" by simp
      then have "pre = []" "k = attempt" "post = []"
        by (auto simp: append_eq_Cons_conv Cons_eq_append_conv)
      with le sg show ?thesis by auto
    next
      case True
      then have r: "is429 (world attempt)" "attempt < retryCount + 1"
        by (simp_all add: do_attempt_retryable_iff)
      note st = do_loop_429_more [where world = world and k = attempt and unm = unm
          and dec = dec and retResp = retResp, OF r]
      show ?thesis
      proof (cases pre)
        case Nil
        with "1.prems" st have "k = attempt" by simp
        with Nil "1.prems" le show ?thesis by auto
      next
        case (Cons x pre')
        with "1.prems" st have x: "x = TransportCall attempt"
          and rest: "Sleep second # snd (do_loop unm dec retryCount world retResp (attempt + 1)) = pre' @ TransportCall k # post"
          by simp_all
        from rest obtain pre'' where p: "pre' = Sleep second # pre''"
          and rest': "snd (do_loop unm dec retryCount world retResp (attempt + 1)) = pre'' @ TransportCall k # post"
          by (cases pre') auto
        from "1.IH" [OF le _ _ rest'] True
        have ih: "attempt + 1 \<le> k" "k \<le> retryCount + 1" "pre'' = retries (attempt + 1) k"
          "\<forall>j. attempt + 1 \<le> j \<and> j < k \<longrightarrow> is429 (world j)"
          "fst (do_loop unm dec retryCount world retResp (attempt + 1)) = fst (do_loop unm dec retryCount world retResp k)"
          "snd (do_loop unm dec retryCount world retResp k) = TransportCall k # post"
          by simp_all
        have lt: "attempt < k" using ih(1) by simp
        have "pre = retries attempt k"
          using Cons x p ih(3) by (simp add: retries_step [OF lt])
        moreover have "\<forall>j. attempt \<le> j \<and> j < k \<longrightarrow> is429 (world j)"
        proof (intro allI impI)
          fix j assume "attempt \<le> j \<and> j < k"
          then consider "j = attempt" | "attempt + 1 \<le> j \<and> j < k" by linarith
          then show "is429 (world j)" using r(1) ih(4) by cases auto
        qed
        moreover have "fst (do_loop unm dec retryCount world retResp attempt) = fst (do_loop unm dec retryCount world retResp k)"
          using st ih(5) by simp
        ultimately show ?thesis using ih lt by auto
      qed
    qed
  qed
qed

lemma do_loop_no_retry:
  assumes "attempt \<le> retryCount + 1"
    and "do_attempt unm dec retryCount (world attempt) retResp attempt \<noteq> Inl ErrRetryable429"
  shows "do_loop unm dec retryCount world retResp attempt =
           (do_attempt unm dec retryCount (world attempt) retResp attempt, [TransportCall attempt])"
proof (cases "do_attempt unm dec retryCount (world attempt) retResp attempt")
  case (Inr r)
  then show ?thesis using assms(1) by (subst do_loop.simps) simp
next
  case (Inl e)
  then show ?thesis using assms by (subst do_loop.simps) (cases e; simp)
qed

lemma do_loop_head:
  assumes "a \<le> retryCount + 1"
  shows "\<exists>t. snd (do_loop unm dec retryCount world retResp a) = TransportCall a # t"
proof (cases "do_attempt unm dec retryCount (world a) retResp a = Inl ErrRetryable429")
  case True
  then have "is429 (world a)" "a < retryCount + 1"
    by (simp_all add: do_attempt_retryable_iff)
  from do_loop_429_more [where world = world and k = a and unm = unm and dec = dec
      and retResp = retResp, OF this]
  show ?thesis by simp
next
  case False
  from do_loop_no_retry [where world = world and attempt = a and unm = unm and dec = dec
      and retResp = retResp, OF assms False]
  show ?thesis by simp
qed

lemma sleep_then_retry:
  assumes "snd (do_loop unm dec retryCount world retResp a) = pre @ TransportCall k # post"
    and "is429 (world k)" and "k < retryCount + 1"
  shows "\<exists>post'. post = Sleep second # TransportCall (k + 1) # post'"
proof -
  from trace_shape [OF assms(1)]
  have t: "snd (do_loop unm dec retryCount world retResp k) = TransportCall k # post" by simp
  from do_loop_429_more [where world = world and k = k and unm = unm and dec = dec
      and retResp = retResp, OF assms(2,3)] t
  have p: "post = Sleep second # snd (do_loop unm dec retryCount world retResp (k + 1))" by simp
  from assms(3) have "k + 1 \<le> retryCount + 1" by simp
  from do_loop_head [OF this, of unm dec world retResp] p show ?thesis by auto
qed

lemma last_429_is_returned:
  assumes "snd (do_loop unm dec retryCount world retResp a) = pre @ TransportCall k # post"
    and "is429 (world k)" and "\<not> k < retryCount + 1"
  shows "post = [] \<and> (\<exists>r e. outcome (world k) = Resp r \<and> checkResponse unm r = Some e \<and>
           fst (do_loop unm dec retryCount world retResp a) = Inl (APIError e))"
proof -
  from trace_shape [OF assms(1)]
  have t: "snd (do_loop unm dec retryCount world retResp k) = TransportCall k # post"
    and f: "fst (do_loop unm dec retryCount world retResp a) = fst (do_loop unm dec retryCount world retResp k)"
    and le: "k \<le> retryCount + 1" by simp_all
  from assms(2) obtain r where r: "outcome (world k) = Resp r" "StatusCode r = 429"
    by (auto simp: is429_def split: transport_result.splits)
  from le assms(3) have "k = retryCount + 1" by simp
  from do_loop_429_last [where world = world and k = k and unm = unm and dec = dec
      and retResp = retResp, OF r this]
  obtain e where "checkResponse unm r = Some e"
    "do_loop unm dec retryCount world retResp k = (Inl (APIError e), [TransportCall k])" by blast
  with t f r show ?thesis by auto
qed

lemma terminal_is_returned:
  assumes "snd (do_loop unm dec retryCount world retResp a) = pre @ TransportCall k # post"
    and "outcome (world k) = Resp r" and "\<not> (200 \<le> StatusCode r \<and> StatusCode r \<le> 299)"
    and "StatusCode r \<noteq> 429"
  shows "post = [] \<and> (\<exists>e. checkResponse unm r = Some e \<and>
           fst (do_loop unm dec retryCount world retResp a) = Inl (APIError e))"
proof -
  from trace_shape [OF assms(1)]
  have t: "snd (do_loop unm dec retryCount world retResp k) = TransportCall k # post"
    and f: "fst (do_loop unm dec retryCount world retResp a) = fst (do_loop unm dec retryCount world retResp k)"
    and le: "k \<le> retryCount + 1" by simp_all
  from do_loop_terminal [where world = world and k = k and unm = unm and dec = dec
      and retResp = retResp, OF assms(2,3,4) le]
  obtain e where "checkResponse unm r = Some e"
    "do_loop unm dec retryCount world retResp k = (Inl (APIError e), [TransportCall k])" by blast
  with t f show ?thesis by auto
qed

lemma transport_failure_is_returned:
  assumes "snd (do_loop unm dec retryCount world retResp a) = pre @ TransportCall k # post"
    and "outcome (world k) = TransportFailure m"
  shows "post = [] \<and> fst (do_loop unm dec retryCount world retResp a) =
           Inl (case ctx_err (world k) of Some ce \<Rightarrow> ContextError ce | None \<Rightarrow> TransportError m)"
proof -
  from trace_shape [OF assms(1)]
  have t: "snd (do_loop unm dec retryCount world retResp k) = TransportCall k # post"
    and f: "fst (do_loop unm dec retryCount world retResp a) = fst (do_loop unm dec retryCount world retResp k)"
    and le: "k \<le> retryCount + 1" by simp_all
  from do_loop_transport_failure [where world = world and k = k and unm = unm and dec = dec
      and retResp = retResp, OF assms(2) le] t f
  show ?thesis by simp
qed

lemma all_429_run:
  assumes "0 \<le> retryCount" and "\<forall>j. 1 \<le> j \<and> j \<le> retryCount + 1 \<longrightarrow> is429 (world j)"
  shows "\<exists>r e. outcome (world (retryCount + 1)) = Resp r \<and> checkResponse unm r = Some e \<and>
           do_loop unm dec retryCount world retResp 1 =
             (Inl (APIError e), retries 1 (retryCount + 1) @ [TransportCall (retryCount + 1)])"
proof -
  have p: "do_loop unm dec retryCount world retResp 1 =
         (fst (do_loop unm dec retryCount world retResp (retryCount + 1)),
          retries 1 (retryCount + 1) @ snd (do_loop unm dec retryCount world retResp (retryCount + 1)))"
    using assms by (intro do_loop_prefix) auto
  from assms have "is429 (world (retryCount + 1))" by simp
  then obtain r where r: "outcome (world (retryCount + 1)) = Resp r" "StatusCode r = 429"
    by (auto simp: is429_def split: transport_result.splits)
  from do_loop_429_last [where world = world and k = "retryCount + 1" and unm = unm and dec = dec
      and retResp = retResp, OF r refl]
  obtain e where "checkResponse unm r = Some e"
    "do_loop unm dec retryCount world retResp (retryCount + 1) = (Inl (APIError e), [TransportCall (retryCount + 1)])"
    by blast
  with p r show ?thesis by simp
qed

lemma two_429_then_2xx:
  assumes "2 \<le> retryCount" and "is429 (world 1)" and "is429 (world 2)" and "is2xx (world 3)"
  shows "do_loop unm dec retryCount world None 1 =
           (Inr None, [TransportCall 1, Sleep second, TransportCall 2, Sleep second, TransportCall 3])"
proof -
  from assms(4) obtain r where r: "outcome (world 3) = Resp r" "200 \<le> StatusCode r" "StatusCode r \<le> 299"
    by (auto simp: is2xx_def split: transport_result.splits)
  have l3: "do_loop unm dec retryCount world None 3 = (Inr None, [TransportCall 3])"
    using do_loop_success [where world = world and k = 3 and unm = unm and dec = dec
        and retResp = None, OF r] assms(1) by simp
  have l2: "do_loop unm dec retryCount world None 2 = (Inr None, [TransportCall 2, Sleep second, TransportCall 3])"
    using do_loop_429_more [where world = world and k = 2 and unm = unm and dec = dec
        and retResp = None, OF assms(3)] assms(1) l3 by simp
  show ?thesis
    using do_loop_429_more [where world = world and k = 1 and unm = unm and dec = dec
        and retResp = None, OF assms(2)] assms(1) l2 by simp
qed

text \<open>
  Claim C2 (retry attempt count).  With a retry count of at least 0 the transport is called
  at most \<open>retryCount + 1\<close> times, which is 6 for the default of 5.  Whenever a call in the
  trace was answered with 429 and attempts remain, the next two events are the sleep of one
  second and the call of the next attempt.  When the last allowed attempt is answered with
  429, nothing follows it and the result is the structured error \<open>checkResponse\<close> built
  from that response.  Against an oracle that answers 429 twice and then 2xx (and a retry
  count of at least 2, so that a third attempt is allowed) the run is exactly three calls
  with two sleeps and succeeds; against an oracle that always answers 429 it is exactly
  \<open>retryCount + 1\<close> calls and fails with a structured error.
\<close>

theorem retry_attempt_count:
  assumes "0 \<le> retryCount"
  shows "calls (snd (do_request unm dec retryCount world retResp)) \<le> nat (retryCount + 1)
    \<and> nat (DefaultRetryCount + 1) = 6
    \<and> (\<forall>k pre post.
          snd (do_request unm dec retryCount world retResp) = pre @ TransportCall k # post \<and>
          is429 (world k) \<and> k < retryCount + 1
          \<longrightarrow> (\<exists>post'. post = Sleep second # TransportCall (k + 1) # post'))
    \<and> (\<forall>k pre post.
          snd (do_request unm dec retryCount world retResp) = pre @ TransportCall k # post \<and>
          is429 (world k) \<and> \<not> k < retryCount + 1
          \<longrightarrow> post = [] \<and> (\<exists>r e. outcome (world k) = Resp r \<and> checkResponse unm r = Some e \<and>
                 fst (do_request unm dec retryCount world retResp) = Inl (APIError e)))
    \<and> (2 \<le> retryCount \<and> is429 (world 1) \<and> is429 (world 2) \<and> is2xx (world 3)
          \<longrightarrow> do_request unm dec retryCount world None =
                (Inr None, [TransportCall 1, Sleep second, TransportCall 2, Sleep second, TransportCall 3]))
    \<and> ((\<forall>j. 1 \<le> j \<and> j \<le> retryCount + 1 \<longrightarrow> is429 (world j))
          \<longrightarrow> calls (snd (do_request unm dec retryCount world retResp)) = nat (retryCount + 1) \<and>
              (\<exists>e. fst (do_request unm dec retryCount world retResp) = Inl (APIError e)))"
proof (intro conjI allI impI)
  show "calls (snd (do_request unm dec retryCount world retResp)) \<le> nat (retryCount + 1)"
    using calls_bound [of unm dec retryCount world retResp 1] by (simp add: do_request_def)
  show "nat (DefaultRetryCount + 1) = 6"
    by (simp add: DefaultRetryCount_def)
next
  fix k pre post
  assume "snd (do_request unm dec retryCount world retResp) = pre @ TransportCall k # post \<and>
          is429 (world k) \<and> k < retryCount + 1"
  then show "\<exists>post'. post = Sleep second # TransportCall (k + 1) # post'"
    unfolding do_request_def using sleep_then_retry by blast
next
  fix k pre post
  assume a: "snd (do_request unm dec retryCount world retResp) = pre @ TransportCall k # post \<and>
          is429 (world k) \<and> \<not> k < retryCount + 1"
  then have "post = [] \<and> (\<exists>r e. outcome (world k) = Resp r \<and> checkResponse unm r = Some e \<and>
                 fst (do_request unm dec retryCount world retResp) = Inl (APIError e))"
    unfolding do_request_def using last_429_is_returned by blast
  then show "post = []"
    and "\<exists>r e. outcome (world k) = Resp r \<and> checkResponse unm r = Some e \<and>
                 fst (do_request unm dec retryCount world retResp) = Inl (APIError e)"
    by simp_all
next
  assume "2 \<le> retryCount \<and> is429 (world 1) \<and> is429 (world 2) \<and> is2xx (world 3)"
  then show "do_request unm dec retryCount world None =
                (Inr None, [TransportCall 1, Sleep second, TransportCall 2, Sleep second, TransportCall 3])"
    unfolding do_request_def using two_429_then_2xx by blast
next
  assume a: "\<forall>j. 1 \<le> j \<and> j \<le> retryCount + 1 \<longrightarrow> is429 (world j)"
  from all_429_run [OF assms a, of unm dec retResp]
  obtain r e where re: "do_loop unm dec retryCount world retResp 1 =
             (Inl (APIError e), retries 1 (retryCount + 1) @ [TransportCall (retryCount + 1)])"
    by blast
  have "calls (retries 1 (retryCount + 1) @ [TransportCall (retryCount + 1)]) = nat (retryCount + 1)"
    using assms calls_retries [of 1 "retryCount + 1"] by (simp add: calls_def nat_add_distrib)
  with re show "calls (snd (do_request unm dec retryCount world retResp)) = nat (retryCount + 1)"
    and "\<exists>e. fst (do_request unm dec retryCount world retResp) = Inl (APIError e)"
    by (simp_all add: do_request_def)
qed

theorem retry_attempt_count_witness:
  "0 \<le> DefaultRetryCount
   \<and> do_request (\<lambda>b e. (True, e)) (\<lambda>b. DecodeEOF :: unit decode_outcome) DefaultRetryCount
        handler_retry_2_times None =
       (Inr None, [TransportCall 1, Sleep second, TransportCall 2, Sleep second, TransportCall 3])
   \<and> calls (snd (do_request (\<lambda>b e. (True, e)) (\<lambda>b. DecodeEOF :: unit decode_outcome) DefaultRetryCount
        handler_always_429 None)) = 6
   \<and> (\<exists>e. fst (do_request (\<lambda>b e. (True, e)) (\<lambda>b. DecodeEOF :: unit decode_outcome) DefaultRetryCount
        handler_always_429 None) = Inl (APIError e))"
proof -
  have rc: "0 \<le> DefaultRetryCount" by (simp add: DefaultRetryCount_def)
  have h2: "2 \<le> DefaultRetryCount \<and> is429 (handler_retry_2_times 1) \<and> is429 (handler_retry_2_times 2) \<and>
      is2xx (handler_retry_2_times 3)"
    by (simp add: DefaultRetryCount_def handler_retry_2_times_def status_only_def is429_def is2xx_def)
  have h3: "\<forall>j. 1 \<le> j \<and> j \<le> DefaultRetryCount + 1 \<longrightarrow> is429 (handler_always_429 j)"
    by (simp add: handler_always_429_def status_only_def is429_def)
  have six: "nat (DefaultRetryCount + 1) = 6" by (simp add: DefaultRetryCount_def)
  from retry_attempt_count [OF rc, of "\<lambda>b e. (True, e)" "\<lambda>b. DecodeEOF :: unit decode_outcome"
      handler_retry_2_times None] h2
  have c1: "do_request (\<lambda>b e. (True, e)) (\<lambda>b. DecodeEOF :: unit decode_outcome) DefaultRetryCount
        handler_retry_2_times None =
       (Inr None, [TransportCall 1, Sleep second, TransportCall 2, Sleep second, TransportCall 3])"
    by blast
  from retry_attempt_count [OF rc, of "\<lambda>b e. (True, e)" "\<lambda>b. DecodeEOF :: unit decode_outcome"
      handler_always_429 None] h3
  have c2: "calls (snd (do_request (\<lambda>b e. (True, e)) (\<lambda>b. DecodeEOF :: unit decode_outcome) DefaultRetryCount
        handler_always_429 None)) = nat (DefaultRetryCount + 1) \<and>
      (\<exists>e. fst (do_request (\<lambda>b e. (True, e)) (\<lambda>b. DecodeEOF :: unit decode_outcome) DefaultRetryCount
        handler_always_429 None) = Inl (APIError e))"
    by blast
  from rc c1 c2 six show ?thesis by simp
qed

text \<open>
  Claim C7 (terminal structured errors).  When a call of the run is answered with a status
  outside 200..299 and different from 429, nothing follows that call (no sleep, no further
  attempt) and the result is the error \<open>checkResponse\<close> builds from the response: the
  struct \<^verbatim>\<open>json.Unmarshal\<close> filled when it accepts a non-empty body; the zero struct with
  only \<open>Code\<close> set to the status when the body cannot be read, is empty, or is rejected by
  \<^verbatim>\<open>json.Unmarshal\<close> with the target left as it was.  (In general a rejected body yields
  whatever \<^verbatim>\<open>json.Unmarshal\<close> left in the struct, with \<open>Code\<close> overwritten by the status.)
\<close>

theorem terminal_structured_errors:
  assumes "snd (do_request unm dec retryCount world retResp) = pre @ TransportCall k # post"
    and "outcome (world k) = Resp r"
    and "\<not> (200 \<le> StatusCode r \<and> StatusCode r \<le> 299)" and "StatusCode r \<noteq> 429"
  shows "post = [] \<and>
    (\<exists>e. checkResponse unm r = Some e \<and>
       fst (do_request unm dec retryCount world retResp) = Inl (APIError e) \<and>
       (\<forall>b e'. Body r = BodyBytes b \<and> b \<noteq> [] \<and> unm b zeroError = (False, e') \<longrightarrow> e = e') \<and>
       (\<forall>b e'. Body r = BodyBytes b \<and> b \<noteq> [] \<and> unm b zeroError = (True, e') \<longrightarrow>
          e = e'\<lparr>Code := StatusCode r\<rparr>) \<and>
       (\<forall>b. Body r = BodyBytes b \<and> b \<noteq> [] \<and> unm b zeroError = (True, zeroError) \<longrightarrow>
          e = zeroError\<lparr>Code := StatusCode r\<rparr>) \<and>
       (Body r = BodyBytes [] \<longrightarrow> e = zeroError\<lparr>Code := StatusCode r\<rparr>) \<and>
       ((\<exists>m. Body r = BodyReadError m) \<longrightarrow> e = zeroError\<lparr>Code := StatusCode r\<rparr>))"
proof -
  from terminal_is_returned [OF assms(1) [unfolded do_request_def] assms(2,3,4)]
  obtain e where p: "post = []" and e: "checkResponse unm r = Some e"
    and f: "fst (do_request unm dec retryCount world retResp) = Inl (APIError e)"
    by (auto simp: do_request_def)
  have "\<forall>b e'. Body r = BodyBytes b \<and> b \<noteq> [] \<and> unm b zeroError = (False, e') \<longrightarrow> e = e'"
    using e assms(3) by (auto simp: checkResponse_def)
  moreover have "\<forall>b e'. Body r = BodyBytes b \<and> b \<noteq> [] \<and> unm b zeroError = (True, e') \<longrightarrow>
          e = e'\<lparr>Code := StatusCode r\<rparr>"
    using e assms(3) by (auto simp: checkResponse_def)
  moreover have "\<forall>b. Body r = BodyBytes b \<and> b \<noteq> [] \<and> unm b zeroError = (True, zeroError) \<longrightarrow>
          e = zeroError\<lparr>Code := StatusCode r\<rparr>"
    using e assms(3) by (auto simp: checkResponse_def)
  moreover have "Body r = BodyBytes [] \<longrightarrow> e = zeroError\<lparr>Code := StatusCode r\<rparr>"
    using e assms(3) by (auto simp: checkResponse_def)
  moreover have "(\<exists>m. Body r = BodyReadError m) \<longrightarrow> e = zeroError\<lparr>Code := StatusCode r\<rparr>"
    using e assms(3) by (auto simp: checkResponse_def)
  ultimately show ?thesis using p e f by blast
qed

theorem terminal_structured_errors_witness:
  "snd (do_request (\<lambda>b e. (True, e)) (\<lambda>b. DecodeEOF :: unit decode_outcome) DefaultRetryCount
        handler_500 None) = [] @ TransportCall 1 # []
   \<and> outcome (handler_500 1) = Resp \<lparr>StatusCode = 500, Body = BodyBytes []\<rparr>
   \<and> \<not> (200 \<le> StatusCode \<lparr>StatusCode = 500, Body = BodyBytes []\<rparr> \<and>
        StatusCode \<lparr>StatusCode = 500, Body = BodyBytes []\<rparr> \<le> 299)
   \<and> StatusCode \<lparr>StatusCode = 500, Body = BodyBytes []\<rparr> \<noteq> 429
   \<and> fst (do_request (\<lambda>b e. (True, e)) (\<lambda>b. DecodeEOF :: unit decode_outcome) DefaultRetryCount
        handler_500 None) = Inl (APIError (zeroError\<lparr>Code := 500\<rparr>))"
proof -
  let ?r = "\<lparr>StatusCode = 500, Body = BodyBytes []\<rparr>"
  have t: "snd (do_request (\<lambda>b e. (True, e)) (\<lambda>b. DecodeEOF :: unit decode_outcome) DefaultRetryCount
        handler_500 None) = [] @ TransportCall 1 # []"
    by (simp add: do_request_def do_loop.simps do_attempt_def checkResponse_def handler_500_def
        status_only_def DefaultRetryCount_def)
  have o: "outcome (handler_500 1) = Resp ?r"
    by (simp add: handler_500_def status_only_def)
  have n2: "\<not> (200 \<le> StatusCode ?r \<and> StatusCode ?r \<le> 299)" by simp
  have n4: "StatusCode ?r \<noteq> 429" by simp
  from terminal_structured_errors [OF t o n2 n4]
  have "fst (do_request (\<lambda>b e. (True, e)) (\<lambda>b. DecodeEOF :: unit decode_outcome) DefaultRetryCount
        handler_500 None) = Inl (APIError (zeroError\<lparr>Code := 500\<rparr>))"
    by auto
  with t o n2 n4 show ?thesis by blast
qed

text \<open>
  Claim C8 (transport failure classification).  When a call of the run fails in the
  transport, nothing follows that call; the result is the context's error when the context
  is done at that moment, and otherwise the transport's own error, unchanged.
\<close>

theorem transport_failure_classification:
  assumes "snd (do_request unm dec retryCount world retResp) = pre @ TransportCall k # post"
    and "outcome (world k) = TransportFailure m"
  shows "post = [] \<and>
    (\<forall>ce. ctx_err (world k) = Some ce \<longrightarrow>
       fst (do_request unm dec retryCount world retResp) = Inl (ContextError ce)) \<and>
    (ctx_err (world k) = None \<longrightarrow>
       fst (do_request unm dec retryCount world retResp) = Inl (TransportError m))"
  using transport_failure_is_returned [OF assms(1) [unfolded do_request_def] assms(2)]
  by (auto simp: do_request_def)

theorem transport_failure_classification_witness:
  "snd (do_request (\<lambda>b e. (True, e)) (\<lambda>b. DecodeEOF :: unit decode_outcome) DefaultRetryCount
        (transport_down None) None) = [] @ TransportCall 1 # []
   \<and> outcome (transport_down None 1) = TransportFailure ''connection refused''
   \<and> ctx_err (transport_down None 1) = None
   \<and> fst (do_request (\<lambda>b e. (True, e)) (\<lambda>b. DecodeEOF :: unit decode_outcome) DefaultRetryCount
        (transport_down None) None) = Inl (TransportError ''connection refused'')
   \<and> snd (do_request (\<lambda>b e. (True, e)) (\<lambda>b. DecodeEOF :: unit decode_outcome) DefaultRetryCount
        (transport_down (Some DeadlineExceeded)) None) = [] @ TransportCall 1 # []
   \<and> outcome (transport_down (Some DeadlineExceeded) 1) = TransportFailure ''connection refused''
   \<and> ctx_err (transport_down (Some DeadlineExceeded) 1) = Some DeadlineExceeded
   \<and> fst (do_request (\<lambda>b e. (True, e)) (\<lambda>b. DecodeEOF :: unit decode_outcome) DefaultRetryCount
        (transport_down (Some DeadlineExceeded)) None) = Inl (ContextError DeadlineExceeded)"
proof -
  have t: "snd (do_request (\<lambda>b e. (True, e)) (\<lambda>b. DecodeEOF :: unit decode_outcome) DefaultRetryCount
        (transport_down c) None) = [] @ TransportCall 1 # []" for c
    by (simp add: do_request_def do_loop.simps do_attempt_def transport_down_def
        DefaultRetryCount_def split: option.splits)
  have o: "outcome (transport_down c 1) = TransportFailure ''connection refused''" for c
    by (simp add: transport_down_def)
  have c1: "ctx_err (transport_down None 1) = None"
    and c2: "ctx_err (transport_down (Some DeadlineExceeded) 1) = Some DeadlineExceeded"
    by (simp_all add: transport_down_def)
  from transport_failure_classification [OF t o, of None] c1
  have r1: "fst (do_request (\<lambda>b e. (True, e)) (\<lambda>b. DecodeEOF :: unit decode_outcome) DefaultRetryCount
        (transport_down None) None) = Inl (TransportError ''connection refused'')"
    by blast
  from transport_failure_classification [OF t o, of "Some DeadlineExceeded"] c2
  have r2: "fst (do_request (\<lambda>b e. (True, e)) (\<lambda>b. DecodeEOF :: unit decode_outcome) DefaultRetryCount
        (transport_down (Some DeadlineExceeded)) None) = Inl (ContextError DeadlineExceeded)"
    by blast
  from t o c1 c2 r1 r2 show ?thesis by blast
qed

lemma do_attempt_ctx_irrelevant:
  "outcome obs = Resp r \<Longrightarrow>
   do_attempt unm dec retryCount (obs\<lparr>ctx_err := c\<rparr>) retResp attempt =
   do_attempt unm dec retryCount obs retResp attempt"
  by (simp add: do_attempt_def)

lemma do_attempt_set_ctx:
  "do_attempt unm dec retryCount (set_ctx c world n) retResp attempt =
   do_attempt unm dec retryCount (world n) retResp attempt"
  by (cases "outcome (world n)") (simp_all add: set_ctx_def do_attempt_ctx_irrelevant)

lemma do_loop_set_ctx:
  "do_loop unm dec retryCount (set_ctx c world) retResp a = do_loop unm dec retryCount world retResp a"
proof (induction unm dec retryCount world retResp a rule: do_loop.induct)
  case (1 unm dec retryCount world retResp attempt)
  show ?case
  proof (cases "attempt \<le> retryCount + 1")
    case False
    then show ?thesis by (simp add: do_loop_exhausted)
  next
    case le: True
    show ?thesis
    proof (cases "do_attempt unm dec retryCount (world attempt) retResp attempt = Inl ErrRetryable429")
      case False
      then have "do_attempt unm dec retryCount (set_ctx c world attempt) retResp attempt \<noteq> Inl ErrRetryable429"
        by (simp add: do_attempt_set_ctx)
      from do_loop_no_retry [where world = "set_ctx c world" and attempt = attempt and unm = unm
          and dec = dec and retResp = retResp, OF le this]
        do_loop_no_retry [where world = world and attempt = attempt and unm = unm
          and dec = dec and retResp = retResp, OF le False]
      show ?thesis by (simp add: do_attempt_set_ctx)
    next
      case True
      from "1.IH" [OF le True refl]
      have ih: "do_loop unm dec retryCount (set_ctx c world) retResp (attempt + 1) =
                do_loop unm dec retryCount world retResp (attempt + 1)" .
      show ?thesis
        using le True ih
        by (subst do_loop.simps, subst (2) do_loop.simps) (simp add: do_attempt_set_ctx)
    qed
  qed
qed

lemma context_error_only_from_failed_call:
  "fst (do_loop unm dec retryCount world retResp a) = Inl (ContextError ce) \<Longrightarrow>
   \<exists>k m pre. snd (do_loop unm dec retryCount world retResp a) = pre @ [TransportCall k] \<and>
     outcome (world k) = TransportFailure m \<and> ctx_err (world k) = Some ce"
proof (induction unm dec retryCount world retResp a rule: do_loop.induct)
  case (1 unm dec retryCount world retResp attempt)
  show ?case
  proof (cases "attempt \<le> retryCount + 1")
    case False
    with "1.prems" show ?thesis by (simp add: do_loop_exhausted)
  next
    case le: True
    show ?thesis
    proof (cases "do_attempt unm dec retryCount (world attempt) retResp attempt = Inl ErrRetryable429")
      case False
      note nr = do_loop_no_retry [where world = world and attempt = attempt and unm = unm
          and dec = dec and retResp = retResp, OF le False]
      with "1.prems" have "do_attempt unm dec retryCount (world attempt) retResp attempt = Inl (ContextError ce)"
        by simp
      then have "\<exists>m. outcome (world attempt) = TransportFailure m \<and> ctx_err (world attempt) = Some ce"
        by (auto simp: do_attempt_def split: transport_result.splits option.splits if_splits
            decode_outcome.splits)
      with nr show ?thesis by auto
    next
      case True
      then have r: "is429 (world attempt)" "attempt < retryCount + 1"
        by (simp_all add: do_attempt_retryable_iff)
      note st = do_loop_429_more [where world = world and k = attempt and unm = unm
          and dec = dec and retResp = retResp, OF r]
      with "1.prems" have "fst (do_loop unm dec retryCount world retResp (attempt + 1)) = Inl (ContextError ce)"
        by simp
      from "1.IH" [OF le True refl this] obtain k m pre where
        "snd (do_loop unm dec retryCount world retResp (attempt + 1)) = pre @ [TransportCall k]"
        "outcome (world k) = TransportFailure m" "ctx_err (world k) = Some ce"
        by blast
      with st have "snd (do_loop unm dec retryCount world retResp attempt) =
          (TransportCall attempt # Sleep second # pre) @ [TransportCall k]"
        by simp
      with \<open>outcome (world k) = TransportFailure m\<close> \<open>ctx_err (world k) = Some ce\<close>
      show ?thesis by blast
    qed
  qed
qed

text \<open>
  Claim C10 (the backoff ignores cancellation).  When a call is answered with 429 and
  attempts remain, the sleep of one second (\<open>10\<^sup>9\<close> ns) and the next attempt follow even
  though the context was already done when the answer arrived.  The state of the context at
  answered attempts has no influence on the result or on the trace.  A context error is
  returned only when the last event of the run is a transport call that failed while the
  context was done; it is never the outcome of a sleep.
\<close>

theorem backoff_ignores_cancellation:
  "(snd (do_request unm dec retryCount world retResp) = pre @ TransportCall k # post \<and>
      is429 (world k) \<and> k < retryCount + 1 \<and> ctx_err (world k) = Some ce
      \<longrightarrow> (\<exists>post'. post = Sleep second # TransportCall (k + 1) # post'))
   \<and> second = 1000000000
   \<and> do_request unm dec retryCount (set_ctx c world) retResp = do_request unm dec retryCount world retResp
   \<and> (fst (do_request unm dec retryCount world retResp) = Inl (ContextError ce')
      \<longrightarrow> (\<exists>j m pre'. snd (do_request unm dec retryCount world retResp) = pre' @ [TransportCall j] \<and>
             outcome (world j) = TransportFailure m \<and> ctx_err (world j) = Some ce'))"
proof (intro conjI impI)
  assume "snd (do_request unm dec retryCount world retResp) = pre @ TransportCall k # post \<and>
      is429 (world k) \<and> k < retryCount + 1 \<and> ctx_err (world k) = Some ce"
  then show "\<exists>post'. post = Sleep second # TransportCall (k + 1) # post'"
    unfolding do_request_def using sleep_then_retry by blast
next
  show "second = 1000000000" by (simp add: second_def)
  show "do_request unm dec retryCount (set_ctx c world) retResp = do_request unm dec retryCount world retResp"
    by (simp add: do_request_def do_loop_set_ctx)
next
  assume "fst (do_request unm dec retryCount world retResp) = Inl (ContextError ce')"
  then show "\<exists>j m pre'. snd (do_request unm dec retryCount world retResp) = pre' @ [TransportCall j] \<and>
             outcome (world j) = TransportFailure m \<and> ctx_err (world j) = Some ce'"
    unfolding do_request_def by (rule context_error_only_from_failed_call)
qed

theorem backoff_ignores_cancellation_witness:
  "snd (do_request (\<lambda>b e. (True, e)) (\<lambda>b. DecodeEOF :: unit decode_outcome) DefaultRetryCount
        cancelled_during_429 None) = [] @ TransportCall 1 # [Sleep second, TransportCall 2]
   \<and> is429 (cancelled_during_429 1) \<and> 1 < DefaultRetryCount + 1
   \<and> ctx_err (cancelled_during_429 1) = Some Canceled
   \<and> (\<exists>post'. [Sleep second, TransportCall 2] = Sleep second # TransportCall (1 + 1) # post')
   \<and> fst (do_request (\<lambda>b e. (True, e)) (\<lambda>b. DecodeEOF :: unit decode_outcome) DefaultRetryCount
        cancelled_during_429 None) = Inl (ContextError Canceled)
   \<and> (\<exists>j m pre'. snd (do_request (\<lambda>b e. (True, e)) (\<lambda>b. DecodeEOF :: unit decode_outcome)
          DefaultRetryCount cancelled_during_429 None) = pre' @ [TransportCall j] \<and>
        outcome (cancelled_during_429 j) = TransportFailure m \<and>
        ctx_err (cancelled_during_429 j) = Some Canceled)"
proof -
  let ?run = "do_request (\<lambda>b e. (True, e)) (\<lambda>b. DecodeEOF :: unit decode_outcome) DefaultRetryCount
        cancelled_during_429 None"
  have run: "?run = (Inl (ContextError Canceled), [TransportCall 1, Sleep second, TransportCall 2])"
    by (simp add: do_request_def do_loop.simps do_attempt_def checkResponse_def
        cancelled_during_429_def DefaultRetryCount_def)
  have h: "snd ?run = [] @ TransportCall 1 # [Sleep second, TransportCall 2] \<and>
      is429 (cancelled_during_429 1) \<and> 1 < DefaultRetryCount + 1 \<and>
      ctx_err (cancelled_during_429 1) = Some Canceled"
    using run by (simp add: is429_def cancelled_during_429_def DefaultRetryCount_def)
  have f: "fst ?run = Inl (ContextError Canceled)" by (simp add: run)
  note t = backoff_ignores_cancellation [of "\<lambda>b e. (True, e)" "\<lambda>b. DecodeEOF :: unit decode_outcome"
      DefaultRetryCount cancelled_during_429 None "[]" 1 "[Sleep second, TransportCall 2]" Canceled
      "\<lambda>n. None" Canceled]
  from t h have c1: "\<exists>post'. [Sleep second, TransportCall 2] = Sleep second # TransportCall (1 + 1) # post'"
    by blast
  from t f have c2: "\<exists>j m pre'. snd ?run = pre' @ [TransportCall j] \<and>
        outcome (cancelled_during_429 j) = TransportFailure m \<and>
        ctx_err (cancelled_during_429 j) = Some Canceled"
    by blast
  from h f c1 c2 show ?thesis by blast
qed

end
